theory Spec2Isabelle
  imports Main "HOL-Library.Sublist"
begin

section \<open>JavaScript strings and values used by the login manager\<close>

text \<open>
  The manager of \<^verbatim>\<open>src/index.ts\<close> keeps a list of cookies, computes the
  \<^verbatim>\<open>cookie\<close> request header from it, parses \<^verbatim>\<open>set-cookie\<close> response
  headers back into it, and logs in through a form before a request when no session
  cookie is held. Strings are lists of code units; the model covers the code units
  below 256, which is what \<^typ>\<open>char\<close> holds.
\<close>

text \<open>
  \<^verbatim>\<open>new Date(s).valueOf()\<close> is a number of milliseconds or \<^verbatim>\<open>NaN\<close> for a
  string that is no date; \<^verbatim>\<open>Date.now()\<close> is always a number of milliseconds.
\<close>

datatype timeval = NaN | Millis int

text \<open>\<^verbatim>\<open>d >= e\<close> on numbers: every comparison with \<^verbatim>\<open>NaN\<close> is false.\<close>

fun ge_num :: "int \<Rightarrow> timeval \<Rightarrow> bool" where
  "ge_num d NaN = False"
| "ge_num d (Millis e) = (e \<le> d)"

datatype error = TypeError | FetchError

text \<open>The white space of \<^verbatim>\<open>String.prototype.trim\<close> and of the pattern class \<^verbatim>\<open>\s\<close>.\<close>

definition is_space :: "char \<Rightarrow> bool" where
  "is_space c =
     (c \<in> set [CHR 0x09, CHR 0x0A, CHR 0x0B, CHR 0x0C, CHR 0x0D, CHR 0x20, CHR 0xA0])"

text \<open>The pattern class \<^verbatim>\<open>\w\<close>: digits, letters and the underscore.\<close>

definition is_word :: "char \<Rightarrow> bool" where
  "is_word c =
     (let n = (of_char c :: nat)
      in (48 \<le> n \<and> n \<le> 57) \<or> (65 \<le> n \<and> n \<le> 90) \<or> n = 95 \<or> (97 \<le> n \<and> n \<le> 122))"

definition trim :: "string \<Rightarrow> string" where
  "trim s = rev (dropWhile is_space (rev (dropWhile is_space s)))"

text \<open>\<^verbatim>\<open>s.includes(t)\<close>: \<open>t\<close> occurs in \<open>s\<close> as a contiguous piece.\<close>

fun str_includes :: "string \<Rightarrow> string \<Rightarrow> bool" where
  "str_includes [] t = (t = [])"
| "str_includes (c # cs) t = (if prefix t (c # cs) then True else str_includes cs t)"

text \<open>
  \<^verbatim>\<open>s.split(sep)\<close> for a string separator: the pieces between the occurrences of
  \<open>sep\<close>, found from the left without overlap. \<open>split_from sep cur s\<close> scans \<open>s\<close> with
  the piece \<open>cur\<close> read so far. An empty separator cuts between all code units.
\<close>

function split_from :: "string \<Rightarrow> string \<Rightarrow> string \<Rightarrow> string list" where
  "split_from sep cur s =
     (if s = [] then [cur]
      else if sep \<noteq> [] \<and> prefix sep s then cur # split_from sep [] (drop (length sep) s)
      else split_from sep (cur @ [hd s]) (tl s))"
  by pat_completeness auto
termination
  by (relation "measure (\<lambda>(sep, cur, s). length s)") auto

declare split_from.simps [simp del]

definition split :: "string \<Rightarrow> string \<Rightarrow> string list" where
  "split sep s = (if sep = [] then map (\<lambda>c. [c]) s else split_from sep [] s)"

text \<open>\<^verbatim>\<open>xs[i]\<close>: \<^verbatim>\<open>undefined\<close>, here \<open>None\<close>, beyond the end of the array.\<close>

definition at :: "'a list \<Rightarrow> nat \<Rightarrow> 'a option" where
  "at xs i = (if i < length xs then Some (xs ! i) else None)"

text \<open>\<^verbatim>\<open>a.join(sep)\<close>.\<close>

fun join :: "string \<Rightarrow> string list \<Rightarrow> string" where
  "join sep [] = []"
| "join sep [x] = x"
| "join sep (x # y # ys) = x @ sep @ join sep (y # ys)"

section \<open>The cookie store\<close>

record ICookie =
  name :: string
  "value" :: string
  expires :: timeval

text \<open>
  \<^verbatim>\<open>getCookies\<close> at the time \<open>d\<close> that \<^verbatim>\<open>Date.now()\<close> returned. The loop clears the
  value of every cookie with \<^verbatim>\<open>d >= c.expires\<close> and pushes \<^verbatim>\<open>name=value\<close> for every
  cookie, cleared or not; the filter then drops the cookies whose value is empty.
  The result is the joined string and the store left behind.
\<close>

definition expire :: "int \<Rightarrow> ICookie \<Rightarrow> ICookie" where
  "expire d c = (if ge_num d (expires c) then c\<lparr>value := []\<rparr> else c)"

definition getCookies :: "int \<Rightarrow> ICookie list \<Rightarrow> string \<times> ICookie list" where
  "getCookies d cs =
     (let cs' = map (expire d) cs;
          a = map (\<lambda>c. name c @ ''='' @ value c) cs'
      in (join ''; '' a, filter (\<lambda>c. value c \<noteq> []) cs'))"

text \<open>
  One \<^verbatim>\<open>set-cookie\<close> value, as the body of the loop in \<^verbatim>\<open>updateCookies\<close> reads it.
  \<^verbatim>\<open>cookie.split("=")[1]\<close> and \<^verbatim>\<open>cookie.split("expires=")[1]\<close> are \<^verbatim>\<open>undefined\<close>
  when the separator does not occur, and calling \<^verbatim>\<open>split\<close> on that throws a
  \<^verbatim>\<open>TypeError\<close>. The date parser of the platform is the parameter \<open>dp\<close>.
\<close>

definition parse_name :: "string \<Rightarrow> error + string" where
  "parse_name cookie =
     (case at (split ''='' cookie) 0 of
        None \<Rightarrow> Inl TypeError
      | Some p \<Rightarrow> Inr (trim p))"

definition parse_value :: "string \<Rightarrow> error + string" where
  "parse_value cookie =
     (case at (split ''='' cookie) 1 of
        None \<Rightarrow> Inl TypeError
      | Some p \<Rightarrow>
          (case at (split '';'' p) 0 of
             None \<Rightarrow> Inl TypeError
           | Some q \<Rightarrow> Inr (trim q)))"

definition parse_expires :: "(string \<Rightarrow> timeval) \<Rightarrow> string \<Rightarrow> error + timeval" where
  "parse_expires dp cookie =
     (case at (split ''expires='' cookie) 1 of
        None \<Rightarrow> Inl TypeError
      | Some p \<Rightarrow>
          (case at (split '';'' p) 0 of
             None \<Rightarrow> Inl TypeError
           | Some q \<Rightarrow> Inr (dp (trim q))))"

definition parse_cookie ::
  "(string \<Rightarrow> timeval) \<Rightarrow> string \<Rightarrow> error + ICookie" where
  "parse_cookie dp cookie =
     (case parse_name cookie of
        Inl e \<Rightarrow> Inl e
      | Inr n \<Rightarrow>
          (case parse_value cookie of
             Inl e \<Rightarrow> Inl e
           | Inr v \<Rightarrow>
               (case parse_expires dp cookie of
                  Inl e \<Rightarrow> Inl e
                | Inr x \<Rightarrow> Inr \<lparr>name = n, value = v, expires = x\<rparr>)))"

text \<open>
  \<^verbatim>\<open>this.cookies.find(c => c.name === name)\<close> followed by the assignment to the
  cookie found, or by the push of a new one: the first cookie of that name is
  overwritten where it stands.
\<close>

fun store :: "ICookie \<Rightarrow> ICookie list \<Rightarrow> ICookie list" where
  "store n [] = [n]"
| "store n (c # cs) =
     (if name c = name n then c\<lparr>value := value n, expires := expires n\<rparr> # cs
      else c # store n cs)"

text \<open>
  The \<^verbatim>\<open>forEach\<close> over the header values. An exception leaves the loop: the cookies
  stored before it stay stored, the values after it are not read.
\<close>

fun merge :: "(string \<Rightarrow> timeval) \<Rightarrow> string list \<Rightarrow> ICookie list \<Rightarrow> error option \<times> ICookie list" where
  "merge dp [] cs = (None, cs)"
| "merge dp (h # hs) cs =
     (case parse_cookie dp h of
        Inl e \<Rightarrow> (Some e, cs)
      | Inr n \<Rightarrow> merge dp hs (store n cs))"

text \<open>
  A response: the values of its \<^verbatim>\<open>set-cookie\<close> header (\<open>None\<close> when
  \<^verbatim>\<open>headers.raw()\<close> has no such key) and its body text.
\<close>

record Response =
  set_cookie :: "string list option"
  body_text :: string

definition updateCookies ::
  "(string \<Rightarrow> timeval) \<Rightarrow> Response \<Rightarrow> ICookie list \<Rightarrow> error option \<times> ICookie list" where
  "updateCookies dp response cs =
     (case set_cookie response of
        None \<Rightarrow> (None, cs)
      | Some cookies \<Rightarrow> merge dp cookies cs)"

text \<open>
  The store seen from outside: responses are merged into it and it is read at given
  times, in any order.
\<close>

datatype jar_op = Merge Response | Read int

fun apply_op :: "(string \<Rightarrow> timeval) \<Rightarrow> jar_op \<Rightarrow> ICookie list \<Rightarrow> ICookie list" where
  "apply_op dp (Merge r) cs = snd (updateCookies dp r cs)"
| "apply_op dp (Read d) cs = snd (getCookies d cs)"

definition run :: "(string \<Rightarrow> timeval) \<Rightarrow> jar_op list \<Rightarrow> ICookie list \<Rightarrow> ICookie list" where
  "run dp ops cs = fold (apply_op dp) ops cs"

subsection \<open>The parts of a header value, as the specification names them\<close>

text \<open>
  The text before the first occurrence of a token and the text after it; with them, the
  text between the first \<^verbatim>\<open>=\<close> and the next \<^verbatim>\<open>;\<close>, and the text between the
  first \<^verbatim>\<open>expires=\<close> and the next \<^verbatim>\<open>;\<close> (up to the end where no \<^verbatim>\<open>;\<close> follows).
\<close>

fun before_token :: "string \<Rightarrow> string \<Rightarrow> string" where
  "before_token tok [] = []"
| "before_token tok (c # cs) = (if prefix tok (c # cs) then [] else c # before_token tok cs)"

fun after_token :: "string \<Rightarrow> string \<Rightarrow> string" where
  "after_token tok [] = []"
| "after_token tok (c # cs) =
     (if prefix tok (c # cs) then drop (length tok) (c # cs) else after_token tok cs)"

definition value_segment :: "string \<Rightarrow> string" where
  "value_segment h = before_token '';'' (after_token ''='' h)"

definition expires_segment :: "string \<Rightarrow> string" where
  "expires_segment h = before_token '';'' (after_token ''expires='' h)"

section \<open>Requests, the transport and the login\<close>

text \<open>
  The options of a request as the manager uses them. \<^verbatim>\<open>undefined\<close> options spread to
  no field at all, which is \<open>no_options\<close>. Headers are the own properties of a plain
  object, in insertion order.
\<close>

record RequestInit =
  "method" :: "string option"
  redirect :: "string option"
  headers :: "(string \<times> string) list"
  body :: "string option"

definition no_options :: RequestInit where
  "no_options = \<lparr>method = None, redirect = None, headers = [], body = None\<rparr>"

record Request =
  url :: string
  init :: RequestInit

text \<open>The method node-fetch uses for a request: \<^verbatim>\<open>GET\<close> unless the options name one.\<close>

definition method_of :: "Request \<Rightarrow> string" where
  "method_of r = (case method (init r) of None \<Rightarrow> ''GET'' | Some m \<Rightarrow> m)"

record IWebLoginOptions =
  baseURL :: string
  username :: string
  password :: string
  loginPath :: string
  sessionidCookieName :: string
  middlewaretokenName :: "string option"

text \<open>
  What lies outside the manager: the server and the network answer a request, given the
  requests sent before it, with a response or not at all (the promise of node-fetch
  rejects); the clock gives the value of each reading of \<^verbatim>\<open>Date.now()\<close> in turn; the
  platform parses dates.
\<close>

record environment =
  respond :: "Request list \<Rightarrow> Request \<Rightarrow> Response option"
  now :: "nat \<Rightarrow> int"
  parse_date :: "string \<Rightarrow> timeval"

text \<open>
  The manager: its cookies, and for the statements below the requests it has sent and
  the number of clock readings it has made.
\<close>

record manager =
  cookies :: "ICookie list"
  sent :: "Request list"
  reads :: nat

text \<open>\<^verbatim>\<open>{...headers, cookie: c}\<close>: the key keeps its place if present, else comes last.\<close>

fun assign :: "string \<Rightarrow> string \<Rightarrow> (string \<times> string) list \<Rightarrow> (string \<times> string) list" where
  "assign k v [] = [(k, v)]"
| "assign k v ((k', v') # kvs) = (if k' = k then (k, v) # kvs else (k', v') # assign k v kvs)"

text \<open>A string or \<^verbatim>\<open>undefined\<close> as a condition, and inside a template literal.\<close>

fun truthy :: "string option \<Rightarrow> bool" where
  "truthy None = False"
| "truthy (Some s) = (s \<noteq> [])"

fun to_string :: "string option \<Rightarrow> string" where
  "to_string None = ''undefined''"
| "to_string (Some s) = s"

definition read_cookies :: "environment \<Rightarrow> manager \<Rightarrow> string \<times> manager" where
  "read_cookies env st =
     (case getCookies (now env (reads st)) (cookies st) of
        (c, cs) \<Rightarrow> (c, st\<lparr>cookies := cs, reads := Suc (reads st)\<rparr>))"

text \<open>
  Lines 56 to 63 of \<^verbatim>\<open>fetch\<close>, which is all that \<^verbatim>\<open>fetch(path, options, true)\<close> runs:
  the cookie header is set, the request is sent, the cookies of the response are stored.
  An exception of \<^verbatim>\<open>updateCookies\<close> rejects the promise.
\<close>

definition fetch_request ::
  "environment \<Rightarrow> IWebLoginOptions \<Rightarrow> string \<Rightarrow> RequestInit \<Rightarrow> manager \<Rightarrow> (error + Response) \<times> manager" where
  "fetch_request env cfg path options st =
     (case read_cookies env st of
        (c, st1) \<Rightarrow>
          (let req = \<lparr>url = baseURL cfg @ path,
                       init = options\<lparr>headers := assign ''cookie'' c (headers options)\<rparr>\<rparr>;
               st2 = st1\<lparr>sent := sent st1 @ [req]\<rparr>
           in case respond env (sent st1) req of
                None \<Rightarrow> (Inl FetchError, st2)
              | Some res \<Rightarrow>
                  (case updateCookies (parse_date env) res (cookies st2) of
                     (Some e, cs) \<Rightarrow> (Inl e, st2\<lparr>cookies := cs\<rparr>)
                   | (None, cs) \<Rightarrow> (Inr res, st2\<lparr>cookies := cs\<rparr>))))"

text \<open>
  The pattern \<^verbatim>\<open><name>\S value=\S(\w+)\<close> of \<^verbatim>\<open>login\<close>. \<open>match_here\<close> matches it at the
  start of a text and gives the captured group; \<open>exec_token\<close> is \<^verbatim>\<open>exec\<close> on a new
  pattern object, the leftmost match. The name is matched code unit by code unit, which
  is what the pattern does for a name without the pattern characters excluded by
  \<open>regex_literal\<close>; other names are outside this model.
\<close>

definition match_here :: "string \<Rightarrow> string \<Rightarrow> string option" where
  "match_here tok s =
     (if prefix tok s then
        (case drop (length tok) s of
           [] \<Rightarrow> None
         | q # r \<Rightarrow>
             if \<not> is_space q \<and> prefix '' value='' r then
               (case drop (length '' value='') r of
                  [] \<Rightarrow> None
                | q' # r' \<Rightarrow>
                    if \<not> is_space q' \<and> takeWhile is_word r' \<noteq> []
                    then Some (takeWhile is_word r') else None)
             else None)
      else None)"

fun exec_token :: "string \<Rightarrow> string \<Rightarrow> string option" where
  "exec_token tok [] = match_here tok []"
| "exec_token tok (c # cs) =
     (case match_here tok (c # cs) of
        Some m \<Rightarrow> Some m
      | None \<Rightarrow> exec_token tok cs)"


text \<open>The token that \<^verbatim>\<open>login\<close> takes from a page: the captured group, or the empty string.\<close>

definition token_of :: "string \<Rightarrow> string \<Rightarrow> string" where
  "token_of tok page = (case exec_token tok page of None \<Rightarrow> [] | Some m \<Rightarrow> m)"

definition loginOptions :: "IWebLoginOptions \<Rightarrow> string \<Rightarrow> RequestInit" where
  "loginOptions cfg token =
     \<lparr>method = Some ''POST'',
      redirect = Some ''manual'',
      headers = [(''content-type'', ''application/x-www-form-urlencoded'')],
      body = Some (to_string (middlewaretokenName cfg) @ ''='' @ token @
                   ''&username='' @ username cfg @ ''&password='' @ password cfg)\<rparr>"

text \<open>The first half of \<^verbatim>\<open>login\<close>: the token, empty unless a name is configured.\<close>

definition login_token ::
  "environment \<Rightarrow> IWebLoginOptions \<Rightarrow> manager \<Rightarrow> (error + string) \<times> manager" where
  "login_token env cfg st =
     (if truthy (middlewaretokenName cfg) then
        (case fetch_request env cfg (loginPath cfg) no_options st of
           (Inl e, st1) \<Rightarrow> (Inl e, st1)
         | (Inr res, st1) \<Rightarrow>
             (Inr (token_of (to_string (middlewaretokenName cfg)) (body_text res)), st1))
      else (Inr [], st))"

definition login ::
  "environment \<Rightarrow> IWebLoginOptions \<Rightarrow> manager \<Rightarrow> (error + unit) \<times> manager" where
  "login env cfg st =
     (case login_token env cfg st of
        (Inl e, st1) \<Rightarrow> (Inl e, st1)
      | (Inr token, st1) \<Rightarrow>
          (case fetch_request env cfg (loginPath cfg) (loginOptions cfg token) st1 of
             (Inl e, st2) \<Rightarrow> (Inl e, st2)
           | (Inr res, st2) \<Rightarrow> (Inr (), st2)))"

definition fetch ::
  "environment \<Rightarrow> IWebLoginOptions \<Rightarrow> string \<Rightarrow> RequestInit \<Rightarrow> bool \<Rightarrow> manager \<Rightarrow> (error + Response) \<times> manager" where
  "fetch env cfg path options skipLogin st =
     (if \<not> skipLogin then
        (case read_cookies env st of
           (c, st1) \<Rightarrow>
             if \<not> str_includes c (sessionidCookieName cfg) then
               (case login env cfg st1 of
                  (Inl e, st2) \<Rightarrow> (Inl e, st2)
                | (Inr u, st2) \<Rightarrow> fetch_request env cfg path options st2)
             else fetch_request env cfg path options st1)
      else fetch_request env cfg path options st)"

text \<open>
  The request that \<open>fetch_request\<close> sends from a state, and the responses whose
  \<^verbatim>\<open>set-cookie\<close> values all carry an \<^verbatim>\<open>expires=\<close> part.
\<close>

definition outgoing ::
  "environment \<Rightarrow> IWebLoginOptions \<Rightarrow> string \<Rightarrow> RequestInit \<Rightarrow> manager \<Rightarrow> Request" where
  "outgoing env cfg path options st =
     \<lparr>url = baseURL cfg @ path,
      init = options\<lparr>headers :=
        assign ''cookie'' (fst (getCookies (now env (reads st)) (cookies st)))
          (headers options)\<rparr>\<rparr>"

definition cookies_parse :: "Response \<Rightarrow> bool" where
  "cookies_parse res =
     (case set_cookie res of
        None \<Rightarrow> True
      | Some hs \<Rightarrow> list_all (\<lambda>h. str_includes h ''expires='') hs)"



text \<open>The manager as the constructor leaves it.\<close>

definition new_manager :: manager where
  "new_manager = \<lparr>cookies = [], sent = [], reads = 0\<rparr>"

subsection \<open>Concrete inputs\<close>

text \<open>A date parser that knows two dates, for the examples below.\<close>

definition example_dates :: "string \<Rightarrow> timeval" where
  "example_dates s =
     (if s = ''T1'' then Millis 1000 else if s = ''T2'' then Millis 2000 else NaN)"

definition example_response :: "string list \<Rightarrow> Response" where
  "example_response hs = \<lparr>set_cookie = Some hs, body_text = []\<rparr>"

text \<open>
  A site whose login page holds the hidden field, which sets a \<^verbatim>\<open>csrftoken\<close> cookie
  with every page and a \<^verbatim>\<open>sessionid\<close> cookie in answer to a \<^verbatim>\<open>POST\<close>; the clock
  stands at 1500.
\<close>

definition example_site :: "string \<Rightarrow> environment" where
  "example_site page =
     \<lparr>respond = (\<lambda>h r.
        if method_of r = ''POST''
        then Some \<lparr>set_cookie = Some [''sessionid=s1; expires=T2; Path=/''], body_text = []\<rparr>
        else Some \<lparr>set_cookie = Some [''csrftoken=xyz; expires=T2''], body_text = page\<rparr>),
      now = (\<lambda>k. 1500),
      parse_date = example_dates\<rparr>"

definition example_page :: string where
  "example_page = ''<input type=\"hidden\" name=\"csrfmiddlewaretoken\" value=\"abc123\">''"




definition example_env :: environment where
  "example_env = example_site example_page"

definition example_cfg :: IWebLoginOptions where
  "example_cfg =
     \<lparr>baseURL = ''https://myapp.com'', username = ''u'', password = ''p'',
      loginPath = ''/login/'', sessionidCookieName = ''sessionid'',
      middlewaretokenName = Some ''csrfmiddlewaretoken''\<rparr>"

section \<open>Properties of the cookie store\<close>

subsection \<open>Names stay unique\<close>

lemma store_names:
  "map name (store n cs) =
     (if name n \<in> set (map name cs) then map name cs else map name cs @ [name n])"
  by (induction cs) auto

lemma store_distinct: "distinct (map name cs) \<Longrightarrow> distinct (map name (store n cs))"
  by (simp add: store_names)

lemma merge_distinct:
  "distinct (map name cs) \<Longrightarrow> distinct (map name (snd (merge dp hs cs)))"
  by (induction hs arbitrary: cs) (auto split: sum.splits simp: store_distinct)

lemma name_expire [simp]: "name (expire d c) = name c"
  by (simp add: expire_def)

lemma getCookies_distinct:
  "distinct (map name cs) \<Longrightarrow> distinct (map name (snd (getCookies d cs)))"
proof -
  assume "distinct (map name cs)"
  then have "distinct (map name (map (expire d) cs))" by (simp add: comp_def)
  then show ?thesis
    unfolding getCookies_def Let_def snd_conv by (rule distinct_map_filter)
qed

lemma apply_op_distinct:
  "distinct (map name cs) \<Longrightarrow> distinct (map name (apply_op dp x cs))"
  by (cases x)
     (auto simp: updateCookies_def merge_distinct getCookies_distinct split: option.splits)

lemma run_distinct: "distinct (map name cs) \<Longrightarrow> distinct (map name (run dp ops cs))"
  unfolding run_def by (induction ops arbitrary: cs) (auto simp: apply_op_distinct)

lemma store_in_place:
  "distinct (map name cs) \<Longrightarrow> name n \<in> set (map name cs) \<Longrightarrow>
   store n cs =
     map (\<lambda>c. if name c = name n then c\<lparr>value := value n, expires := expires n\<rparr> else c) cs"
proof (induction cs)
  case Nil
  then show ?case by simp
next
  case (Cons c cs)
  show ?case
  proof (cases "name c = name n")
    case True
    with Cons.prems have "name n \<notin> set (map name cs)" by auto
    then have
      "map (\<lambda>c. if name c = name n then c\<lparr>value := value n, expires := expires n\<rparr> else c) cs
       = cs"
      by (induction cs) auto
    with True show ?thesis by simp
  next
    case False
    with Cons show ?thesis by auto
  qed
qed

text \<open>
  C9. Name uniqueness is an invariant of the store: from the empty store, after any
  sequence of merges of responses and reads at any times, no two stored cookies share a
  name; and merging a header whose name is already stored changes the value and the
  expiry of that one entry where it stands and adds no entry.
\<close>

theorem jar_names_unique:
  "distinct (map name (run dp ops [])) \<and>
   (\<forall>h n. parse_cookie dp h = Inr n \<longrightarrow> name n \<in> set (map name (run dp ops [])) \<longrightarrow>
      merge dp [h] (run dp ops []) =
        (None,
         map (\<lambda>c. if name c = name n then c\<lparr>value := value n, expires := expires n\<rparr> else c)
           (run dp ops [])))"
proof -
  have d: "distinct (map name (run dp ops []))"
    by (rule run_distinct) simp
  then show ?thesis by (auto simp: store_in_place)
qed

theorem jar_names_unique_witness:
  "run example_dates
     [Merge (example_response [''a=1; expires=T1'', ''b=2; expires=T2'']), Read 1500,
      Merge (example_response [''b=3; expires=T2''])] []
     = [\<lparr>name = ''b'', value = ''3'', expires = Millis 2000\<rparr>] \<and>
   parse_cookie example_dates ''b=4; expires=T1'' =
     Inr \<lparr>name = ''b'', value = ''4'', expires = Millis 1000\<rparr> \<and>
   merge example_dates [''b=4; expires=T1'']
     (run example_dates
       [Merge (example_response [''a=1; expires=T1'', ''b=2; expires=T2'']), Read 1500,
        Merge (example_response [''b=3; expires=T2''])] [])
     = (None, [\<lparr>name = ''b'', value = ''4'', expires = Millis 1000\<rparr>])"
proof -
  let ?ops = "[Merge (example_response [''a=1; expires=T1'', ''b=2; expires=T2'']), Read 1500,
      Merge (example_response [''b=3; expires=T2''])]"
  have r: "run example_dates ?ops [] = [\<lparr>name = ''b'', value = ''3'', expires = Millis 2000\<rparr>]"
    by code_simp
  have p: "parse_cookie example_dates ''b=4; expires=T1'' =
     Inr \<lparr>name = ''b'', value = ''4'', expires = Millis 1000\<rparr>"
    by code_simp
  from jar_names_unique [of example_dates ?ops] p
  have "merge example_dates [''b=4; expires=T1''] (run example_dates ?ops []) =
        (None,
         map (\<lambda>c. if name c = ''b'' then c\<lparr>value := ''4'', expires := Millis 1000\<rparr> else c)
           (run example_dates ?ops []))"
    unfolding r by simp
  with r p show ?thesis by simp
qed

subsection \<open>A response without cookies\<close>

text \<open>
  C10. When the response carries no \<^verbatim>\<open>set-cookie\<close> header, the update step after the
  request leaves the store as it is: nothing is added, removed or changed, and the
  cookies after the whole request are those the read before it left.
\<close>

theorem no_set_cookie_no_change:
  "set_cookie response = None \<Longrightarrow>
   updateCookies dp response cs = (None, cs) \<and>
   (respond env (sent st) (outgoing env cfg path options st) = Some response \<longrightarrow>
    fetch_request env cfg path options st =
      (Inr response,
       st\<lparr>cookies := snd (getCookies (now env (reads st)) (cookies st)),
          reads := Suc (reads st),
          sent := sent st @ [outgoing env cfg path options st]\<rparr>))"
  by (auto simp: updateCookies_def fetch_request_def read_cookies_def outgoing_def Let_def
      split: prod.splits)

theorem no_set_cookie_no_change_witness:
  "set_cookie \<lparr>set_cookie = None, body_text = ''ok''\<rparr> = None \<and>
   updateCookies example_dates \<lparr>set_cookie = None, body_text = ''ok''\<rparr>
     [\<lparr>name = ''a'', value = ''1'', expires = Millis 2000\<rparr>]
   = (None, [\<lparr>name = ''a'', value = ''1'', expires = Millis 2000\<rparr>]) \<and>
   cookies (snd (fetch_request
     \<lparr>respond = (\<lambda>h r. Some \<lparr>set_cookie = None, body_text = ''ok''\<rparr>),
      now = (\<lambda>k. 1500), parse_date = example_dates\<rparr>
     example_cfg ''/page'' no_options
     \<lparr>cookies = [\<lparr>name = ''a'', value = ''1'', expires = Millis 2000\<rparr>], sent = [], reads = 0\<rparr>))
   = [\<lparr>name = ''a'', value = ''1'', expires = Millis 2000\<rparr>]"
proof -
  let ?res = "\<lparr>set_cookie = None, body_text = ''ok''\<rparr>"
  let ?env = "\<lparr>respond = (\<lambda>h r. Some ?res), now = (\<lambda>k. 1500), parse_date = example_dates\<rparr>"
  let ?cs = "[\<lparr>name = ''a'', value = ''1'', expires = Millis 2000\<rparr>]"
  let ?st = "\<lparr>cookies = ?cs, sent = [], reads = 0\<rparr>"
  have a: "set_cookie ?res = None" by simp
  have b: "respond ?env (sent ?st) (outgoing ?env example_cfg ''/page'' no_options ?st) = Some ?res"
    by simp
  have c: "snd (getCookies 1500 ?cs) = ?cs" by code_simp
  from no_set_cookie_no_change [OF a, of example_dates ?cs ?env ?st example_cfg "''/page''" no_options] b
  have "updateCookies example_dates ?res ?cs = (None, ?cs)"
    and "cookies (snd (fetch_request ?env example_cfg ''/page'' no_options ?st))
         = snd (getCookies 1500 ?cs)"
    by simp_all
  with a c show ?thesis by simp
qed

subsection \<open>What a read returns\<close>

text \<open>
  C2 (evaluation of the code). Read at time 100, the store with cookie \<open>a\<close> expiring
  at 100 and cookie \<open>b\<close> expiring at 101 gives the string \<^verbatim>\<open>a=; b=2\<close>: the expired
  cookie is dropped from the store, but its name is still in the string returned by
  that read, with an empty value.
\<close>

theorem getCookies_lists_expired_name:
  "getCookies 100
     [\<lparr>name = ''a'', value = ''1'', expires = Millis 100\<rparr>,
      \<lparr>name = ''b'', value = ''2'', expires = Millis 101\<rparr>]
   = (''a=; b=2'', [\<lparr>name = ''b'', value = ''2'', expires = Millis 101\<rparr>])"
  by code_simp

subsection \<open>Splitting a header value\<close>

lemma str_includes_sublist: "str_includes s t \<longleftrightarrow> sublist t s"
  by (induction s) (auto simp: sublist_Cons_right)

lemma split_from_shape:
  "sep \<noteq> [] \<Longrightarrow>
   split_from sep cur s =
     (cur @ before_token sep s) #
       (if str_includes s sep then split_from sep [] (after_token sep s) else [])"
proof (induction sep cur s rule: split_from.induct)
  case (1 sep cur s)
  show ?case
  proof (cases s)
    case Nil
    with 1 show ?thesis by (simp add: split_from.simps[of sep cur "[]"])
  next
    case (Cons c cs)
    show ?thesis
    proof (cases "prefix sep s")
      case True
      with Cons 1 show ?thesis
        by (simp add: split_from.simps[of sep cur "c # cs"])
    next
      case False
      with Cons 1 show ?thesis
        by (simp add: split_from.simps[of sep cur "c # cs"])
    qed
  qed
qed

lemma at_split_0: "sep \<noteq> [] \<Longrightarrow> at (split sep s) 0 = Some (before_token sep s)"
  by (simp add: split_def at_def split_from_shape[of sep "[]" s])

lemma at_split_1:
  assumes ne: "sep \<noteq> []"
  shows "at (split sep s) (Suc 0) =
     (if str_includes s sep then Some (before_token sep (after_token sep s)) else None)"
proof -
  have "split sep s =
      before_token sep s #
        (if str_includes s sep then split_from sep [] (after_token sep s) else [])"
    using ne by (simp add: split_def split_from_shape[of sep "[]" s])
  moreover have "split_from sep [] (after_token sep s) =
      before_token sep (after_token sep s) #
        (if str_includes (after_token sep s) sep
         then split_from sep [] (after_token sep (after_token sep s)) else [])"
    using ne by (simp add: split_from_shape[of sep "[]" "after_token sep s"])
  ultimately show ?thesis by (simp add: at_def)
qed

lemma before_token_single: "before_token [ch] s = takeWhile (\<lambda>c. c \<noteq> ch) s"
  by (induction s) auto

lemma prefix_takeWhile:
  "prefix b s \<Longrightarrow> ch \<notin> set b \<Longrightarrow> prefix b (takeWhile (\<lambda>c. c \<noteq> ch) s)"
proof (induction b arbitrary: s)
  case Nil
  then show ?case by simp
next
  case (Cons x b)
  then show ?case by (cases s) auto
qed

lemma takeWhile_before_token:
  "b \<noteq> [] \<Longrightarrow> ch \<notin> set b \<Longrightarrow> \<not> str_includes (takeWhile (\<lambda>c. c \<noteq> ch) s) b \<Longrightarrow>
   takeWhile (\<lambda>c. c \<noteq> ch) (before_token b s) = takeWhile (\<lambda>c. c \<noteq> ch) s"
proof (induction s)
  case Nil
  then show ?case by simp
next
  case (Cons c cs)
  show ?case
  proof (cases "c = ch")
    case True
    with Cons.prems have "\<not> prefix b (c # cs)" by (cases b) auto
    with True show ?thesis by simp
  next
    case False
    have np: "\<not> prefix b (c # cs)"
    proof
      assume "prefix b (c # cs)"
      then have "prefix b (takeWhile (\<lambda>c. c \<noteq> ch) (c # cs))"
        using Cons.prems(2) by (rule prefix_takeWhile)
      then have "str_includes (takeWhile (\<lambda>c. c \<noteq> ch) (c # cs)) b"
        using False by simp
      with Cons.prems(3) show False by simp
    qed
    from Cons.prems(3) False have "\<not> str_includes (takeWhile (\<lambda>c. c \<noteq> ch) cs) b"
      by (simp split: if_splits)
    with Cons.IH Cons.prems
    have "takeWhile (\<lambda>c. c \<noteq> ch) (before_token b cs) = takeWhile (\<lambda>c. c \<noteq> ch) cs"
      by simp
    with np False show ?thesis by simp
  qed
qed

lemma before_token_nested:
  "b \<noteq> [] \<Longrightarrow> ch \<notin> set b \<Longrightarrow> \<not> str_includes (before_token [ch] s) b \<Longrightarrow>
   before_token [ch] (before_token b s) = before_token [ch] s"
  by (simp add: before_token_single takeWhile_before_token)

lemma eq_in_expires: "str_includes s ''expires='' \<Longrightarrow> str_includes s ''=''"
proof -
  have "sublist ''='' ''expires=''"
    by (simp add: sublist_Cons_right)
  then show "str_includes s ''expires='' \<Longrightarrow> str_includes s ''=''"
    unfolding str_includes_sublist by (rule sublist_order.order_trans)
qed

lemma parse_name_eq: "parse_name h = Inr (trim (before_token ''='' h))"
  by (simp add: parse_name_def at_split_0)

lemma parse_value_eq:
  "parse_value h =
     (if str_includes h ''=''
      then Inr (trim (before_token '';'' (before_token ''='' (after_token ''='' h))))
      else Inl TypeError)"
  by (simp add: parse_value_def at_split_0 at_split_1)

lemma parse_expires_eq:
  "parse_expires dp h =
     (if str_includes h ''expires=''
      then Inr (dp (trim (before_token '';''
             (before_token ''expires='' (after_token ''expires='' h)))))
      else Inl TypeError)"
  by (simp add: parse_expires_def at_split_0 at_split_1)

lemma parse_cookie_fails:
  "\<not> str_includes h ''expires='' \<Longrightarrow> parse_cookie dp h = Inl TypeError"
  by (simp add: parse_cookie_def parse_name_eq parse_value_eq parse_expires_eq)

lemma parse_cookie_error: "parse_cookie dp h = Inl e \<Longrightarrow> e = TypeError"
  by (simp add: parse_cookie_def parse_name_eq parse_value_eq parse_expires_eq
      split: if_splits)

lemma parse_cookie_ok: "str_includes h ''expires='' \<Longrightarrow> \<not> isl (parse_cookie dp h)"
  by (simp add: parse_cookie_def parse_name_eq parse_value_eq parse_expires_eq eq_in_expires)

lemma parse_cookie_segments:
  assumes "str_includes h ''expires=''"
    and "\<not> str_includes (value_segment h) ''=''"
    and "\<not> str_includes (expires_segment h) ''expires=''"
  shows "parse_cookie dp h =
     Inr \<lparr>name = trim (before_token ''='' h), value = trim (value_segment h),
          expires = dp (trim (expires_segment h))\<rparr>"
proof -
  have v: "before_token '';'' (before_token ''='' (after_token ''='' h)) = value_segment h"
    using assms(2) unfolding value_segment_def
    by (intro before_token_nested) auto
  have x: "before_token '';'' (before_token ''expires='' (after_token ''expires='' h))
      = expires_segment h"
    using assms(3) unfolding expires_segment_def
    by (intro before_token_nested) auto
  show ?thesis
    using assms(1) eq_in_expires[OF assms(1)]
    by (simp add: parse_cookie_def parse_name_eq parse_value_eq parse_expires_eq v x)
qed

lemma find_store:
  "\<exists>c. find (\<lambda>c. name c = name n) (store n cs) = Some c \<and>
       name c = name n \<and> value c = value n \<and> expires c = expires n"
  by (induction cs) auto

subsection \<open>What a merged header stores\<close>

text \<open>
  C4, as the code has it. For a header value that contains \<^verbatim>\<open>expires=\<close>, whose text
  between the first \<^verbatim>\<open>=\<close> and the next \<^verbatim>\<open>;\<close> holds no further \<^verbatim>\<open>=\<close>, and whose
  text between the first \<^verbatim>\<open>expires=\<close> and the next \<^verbatim>\<open>;\<close> holds no further
  \<^verbatim>\<open>expires=\<close>, the merge stores a cookie whose name is the text before the first
  \<^verbatim>\<open>=\<close>, whose value is the text between the first \<^verbatim>\<open>=\<close> and the next \<^verbatim>\<open>;\<close>, and
  whose expiry is the date parsed from the text between \<^verbatim>\<open>expires=\<close> and the next
  \<^verbatim>\<open>;\<close>, each with the white space at its two ends removed.
\<close>

theorem merge_stores_trimmed_segments:
  assumes "str_includes h ''expires=''"
    and "\<not> str_includes (value_segment h) ''=''"
    and "\<not> str_includes (expires_segment h) ''expires=''"
    and "set_cookie response = Some [h]"
  shows "\<exists>cs' c. updateCookies dp response cs = (None, cs') \<and>
           find (\<lambda>c. name c = trim (before_token ''='' h)) cs' = Some c \<and>
           name c = trim (before_token ''='' h) \<and>
           value c = trim (value_segment h) \<and>
           expires c = dp (trim (expires_segment h))"
proof -
  let ?n = "\<lparr>name = trim (before_token ''='' h), value = trim (value_segment h),
             expires = dp (trim (expires_segment h))\<rparr>"
  have "parse_cookie dp h = Inr ?n"
    using assms(1-3) by (rule parse_cookie_segments)
  then have "updateCookies dp response cs = (None, store ?n cs)"
    using assms(4) by (simp add: updateCookies_def)
  moreover from find_store [of ?n cs]
  obtain c where "find (\<lambda>c. name c = trim (before_token ''='' h)) (store ?n cs) = Some c"
    and "name c = trim (before_token ''='' h)"
    and "value c = trim (value_segment h)"
    and "expires c = dp (trim (expires_segment h))"
    by auto
  ultimately show ?thesis by blast
qed

theorem merge_stores_trimmed_segments_witness:
  "str_includes ''sid = abc ; Path=/; expires= T1 ; HttpOnly'' ''expires='' \<and>
   \<not> str_includes (value_segment ''sid = abc ; Path=/; expires= T1 ; HttpOnly'') ''='' \<and>
   \<not> str_includes (expires_segment ''sid = abc ; Path=/; expires= T1 ; HttpOnly'') ''expires='' \<and>
   updateCookies example_dates
     (example_response [''sid = abc ; Path=/; expires= T1 ; HttpOnly''])
     [\<lparr>name = ''sid'', value = ''old'', expires = NaN\<rparr>]
   = (None, [\<lparr>name = ''sid'', value = ''abc'', expires = Millis 1000\<rparr>])"
proof -
  let ?h = "''sid = abc ; Path=/; expires= T1 ; HttpOnly''"
  have a: "str_includes ?h ''expires=''" by code_simp
  have b: "\<not> str_includes (value_segment ?h) ''=''" by code_simp
  have c: "\<not> str_includes (expires_segment ?h) ''expires=''" by code_simp
  have d: "set_cookie (example_response [?h]) = Some [?h]" by (simp add: example_response_def)
  have e: "updateCookies example_dates (example_response [?h])
      [\<lparr>name = ''sid'', value = ''old'', expires = NaN\<rparr>]
    = (None, [\<lparr>name = ''sid'', value = ''abc'', expires = Millis 1000\<rparr>])"
    by code_simp
  from merge_stores_trimmed_segments [OF a b c d, of example_dates
      "[\<lparr>name = ''sid'', value = ''old'', expires = NaN\<rparr>]"]
  have "\<exists>cs' c. updateCookies example_dates (example_response [?h])
      [\<lparr>name = ''sid'', value = ''old'', expires = NaN\<rparr>] = (None, cs')" by blast
  with a b c e show ?thesis by simp
qed

text \<open>
  C4 as stated fails at three inputs. White space around a part is removed: from
  \<^verbatim>\<open>a= b; expires=T1\<close> the value stored is \<^verbatim>\<open>b\<close>, and the text between the first
  \<^verbatim>\<open>=\<close> and the next \<^verbatim>\<open>;\<close> has a leading space. A value that contains \<^verbatim>\<open>=\<close> is cut
  there: from \<^verbatim>\<open>tok=YWJj=; expires=T1\<close> the value stored is \<^verbatim>\<open>YWJj\<close>. And the text of
  the expiry is cut at a second \<^verbatim>\<open>expires=\<close>: from \<^verbatim>\<open>a=b; expires=T1expires=T2\<close> the
  expiry stored is the date \<^verbatim>\<open>T1\<close>, and the text up to the next \<^verbatim>\<open>;\<close> is no date.
\<close>

theorem merge_value_counterexample:
  "updateCookies example_dates (example_response [''a= b; expires=T1'']) []
     = (None, [\<lparr>name = ''a'', value = ''b'', expires = Millis 1000\<rparr>]) \<and>
   value_segment ''a= b; expires=T1'' = '' b'' \<and>
   updateCookies example_dates (example_response [''tok=YWJj=; expires=T1'']) []
     = (None, [\<lparr>name = ''tok'', value = ''YWJj'', expires = Millis 1000\<rparr>]) \<and>
   value_segment ''tok=YWJj=; expires=T1'' = ''YWJj='' \<and>
   updateCookies example_dates (example_response [''a=b; expires=T1expires=T2'']) []
     = (None, [\<lparr>name = ''a'', value = ''b'', expires = Millis 1000\<rparr>]) \<and>
   example_dates (expires_segment ''a=b; expires=T1expires=T2'') = NaN"
  by code_simp

subsection \<open>A header without an expiry\<close>

lemma merge_stops:
  "h \<in> set hs \<Longrightarrow> \<not> str_includes h ''expires='' \<Longrightarrow>
   \<exists>pre bad post. hs = pre @ bad # post \<and>
      merge dp pre cs = (None, snd (merge dp hs cs)) \<and>
      fst (merge dp hs cs) = Some TypeError"
proof (induction hs arbitrary: cs)
  case Nil
  then show ?case by simp
next
  case (Cons a hs)
  show ?case
  proof (cases "parse_cookie dp a")
    case (Inl e)
    then have "e = TypeError" by (rule parse_cookie_error)
    with Inl have "a # hs = [] @ a # hs \<and>
        merge dp [] cs = (None, snd (merge dp (a # hs) cs)) \<and>
        fst (merge dp (a # hs) cs) = Some TypeError"
      by simp
    then show ?thesis by blast
  next
    case (Inr n)
    with Cons.prems have "h \<in> set hs" by (auto simp: parse_cookie_fails)
    from Cons.IH[OF this Cons.prems(2), of "store n cs"]
    obtain pre bad post where "hs = pre @ bad # post"
      and "merge dp pre (store n cs) = (None, snd (merge dp hs (store n cs)))"
      and "fst (merge dp hs (store n cs)) = Some TypeError" by blast
    with Inr have "a # hs = (a # pre) @ bad # post \<and>
        merge dp (a # pre) cs = (None, snd (merge dp (a # hs) cs)) \<and>
        fst (merge dp (a # hs) cs) = Some TypeError"
      by simp
    then show ?thesis by blast
  qed
qed

text \<open>
  C5. When one of the \<^verbatim>\<open>set-cookie\<close> values of a response has no \<^verbatim>\<open>expires=\<close> in it,
  the update throws a \<^verbatim>\<open>TypeError\<close>; it does not skip that value and go on: the store
  it leaves is the one reached by merging, without error, the values that stand before
  some value of the list, and nothing from that value on.
\<close>

theorem merge_fails_without_expires:
  assumes "set_cookie response = Some hs"
    and "h \<in> set hs"
    and "\<not> str_includes h ''expires=''"
  shows "fst (updateCookies dp response cs) = Some TypeError \<and>
    (\<exists>pre bad post. hs = pre @ bad # post \<and>
       merge dp pre cs = (None, snd (updateCookies dp response cs)))"
  using merge_stops [OF assms(2,3), of dp cs] assms(1)
  by (auto simp: updateCookies_def)

theorem merge_fails_without_expires_witness:
  "set_cookie (example_response [''a=b; expires=T1'', ''c=d; Path=/'', ''e=f; expires=T1''])
     = Some [''a=b; expires=T1'', ''c=d; Path=/'', ''e=f; expires=T1''] \<and>
   ''c=d; Path=/'' \<in> set [''a=b; expires=T1'', ''c=d; Path=/'', ''e=f; expires=T1''] \<and>
   \<not> str_includes ''c=d; Path=/'' ''expires='' \<and>
   updateCookies example_dates
     (example_response [''a=b; expires=T1'', ''c=d; Path=/'', ''e=f; expires=T1'']) []
   = (Some TypeError, [\<lparr>name = ''a'', value = ''b'', expires = Millis 1000\<rparr>])"
proof -
  let ?hs = "[''a=b; expires=T1'', ''c=d; Path=/'', ''e=f; expires=T1'']"
  have a: "set_cookie (example_response ?hs) = Some ?hs" by (simp add: example_response_def)
  have b: "''c=d; Path=/'' \<in> set ?hs" by simp
  have c: "\<not> str_includes ''c=d; Path=/'' ''expires=''" by code_simp
  have d: "snd (updateCookies example_dates (example_response ?hs) [])
      = [\<lparr>name = ''a'', value = ''b'', expires = Millis 1000\<rparr>]" by code_simp
  from merge_fails_without_expires [OF a b c, of example_dates "[]"]
  have "fst (updateCookies example_dates (example_response ?hs) []) = Some TypeError"
    by blast
  with d have "updateCookies example_dates (example_response ?hs) []
      = (Some TypeError, [\<lparr>name = ''a'', value = ''b'', expires = Millis 1000\<rparr>])"
    by (simp add: prod_eq_iff)
  with a b c show ?thesis by simp
qed

subsection \<open>Merging the same headers again\<close>

lemma store_idem: "store n (store n cs) = store n cs"
  by (induction cs) auto

lemma store_same_name: "name m = name n \<Longrightarrow> store n (store m cs) = store n cs"
  by (induction cs) auto

lemma store_commute:
  "name m \<noteq> name n \<Longrightarrow> name n \<in> set (map name cs) \<Longrightarrow>
   store m (store n cs) = store n (store m cs)"
  by (induction cs) auto

lemma store_keeps_fixed:
  "name m \<noteq> name n \<Longrightarrow> store n cs = cs \<Longrightarrow> store n (store m cs) = store m cs"
  by (induction cs) auto

lemma name_in_store: "name n \<in> set (map name (store n cs))"
  by (simp add: store_names)

lemma names_store_mono: "x \<in> set (map name cs) \<Longrightarrow> x \<in> set (map name (store m cs))"
  by (simp add: store_names)

lemma names_fold_mono:
  "x \<in> set (map name cs) \<Longrightarrow> x \<in> set (map name (fold store us cs))"
  by (induction us arbitrary: cs) (auto simp: names_store_mono simp del: set_map)

lemma fold_store_overwritten:
  "name u \<in> set (map name cs) \<Longrightarrow> name u \<in> set (map name us) \<Longrightarrow>
   fold store us (store u cs) = fold store us cs"
proof (induction us arbitrary: cs)
  case Nil
  then show ?case by simp
next
  case (Cons w ws)
  show ?case
  proof (cases "name w = name u")
    case True
    then show ?thesis by (simp add: store_same_name)
  next
    case False
    with Cons.prems have in_ws: "name u \<in> set (map name ws)" by auto
    have "store w (store u cs) = store u (store w cs)"
      using False Cons.prems(1) by (simp add: store_commute)
    moreover have "name u \<in> set (map name (store w cs))"
      using Cons.prems(1) by (rule names_store_mono)
    ultimately show ?thesis using Cons.IH in_ws by simp
  qed
qed

lemma fold_store_keeps_fixed:
  "name u \<notin> set (map name us) \<Longrightarrow> store u cs = cs \<Longrightarrow>
   store u (fold store us cs) = fold store us cs"
proof (induction us arbitrary: cs)
  case Nil
  then show ?case by simp
next
  case (Cons w ws)
  then have "name w \<noteq> name u" and "name u \<notin> set (map name ws)" by auto
  moreover from this Cons.prems(2) have "store u (store w cs) = store w cs"
    by (simp add: store_keeps_fixed)
  ultimately show ?case using Cons.IH by simp
qed

lemma fold_store_idem: "fold store us (fold store us cs) = fold store us cs"
proof (induction us arbitrary: cs)
  case Nil
  then show ?case by simp
next
  case (Cons u us)
  let ?M = "fold store us (store u cs)"
  have IH: "fold store us ?M = ?M" by (rule Cons.IH)
  have "fold store us (store u ?M) = ?M"
  proof (cases "name u \<in> set (map name us)")
    case True
    have "name u \<in> set (map name ?M)"
      by (rule names_fold_mono) (rule name_in_store)
    then have "fold store us (store u ?M) = fold store us ?M"
      using True by (rule fold_store_overwritten)
    then show ?thesis using IH by simp
  next
    case False
    then have "store u ?M = ?M"
      by (rule fold_store_keeps_fixed) (rule store_idem)
    then show ?thesis using IH by simp
  qed
  then show ?case by simp
qed

lemma merge_all_parsed:
  "list_all (\<lambda>h. \<not> isl (parse_cookie dp h)) hs \<Longrightarrow>
   merge dp hs cs = (None, fold store (map (\<lambda>h. projr (parse_cookie dp h)) hs) cs)"
  by (induction hs arbitrary: cs) (auto split: sum.splits)

text \<open>
  C6. Merging is idempotent: for every store and every sequence of header values that
  each carry an \<^verbatim>\<open>expires=\<close> part, the merge succeeds, and merging the sequence a second
  time leaves the store that the first merge left; so a read at any time gives the same
  string and the same remaining cookies after two merges as after one.
\<close>

theorem merge_idempotent:
  assumes "list_all (\<lambda>h. str_includes h ''expires='') hs"
  shows "fst (merge dp hs cs) = None \<and>
         merge dp hs (snd (merge dp hs cs)) = merge dp hs cs \<and>
         getCookies d (snd (merge dp hs (snd (merge dp hs cs)))) =
           getCookies d (snd (merge dp hs cs))"
proof -
  from assms have "list_all (\<lambda>h. \<not> isl (parse_cookie dp h)) hs"
    by (induction hs) (auto simp: parse_cookie_ok)
  then have "\<And>cs. merge dp hs cs =
      (None, fold store (map (\<lambda>h. projr (parse_cookie dp h)) hs) cs)"
    by (rule merge_all_parsed)
  then show ?thesis by (simp add: fold_store_idem)
qed

theorem merge_idempotent_witness:
  "list_all (\<lambda>h. str_includes h ''expires='')
     [''a=1; expires=T1'', ''b=2; expires=T2'', ''a=3; expires=T2''] \<and>
   merge example_dates [''a=1; expires=T1'', ''b=2; expires=T2'', ''a=3; expires=T2'']
     [\<lparr>name = ''b'', value = ''0'', expires = NaN\<rparr>]
   = (None, [\<lparr>name = ''b'', value = ''2'', expires = Millis 2000\<rparr>,
             \<lparr>name = ''a'', value = ''3'', expires = Millis 2000\<rparr>]) \<and>
   merge example_dates [''a=1; expires=T1'', ''b=2; expires=T2'', ''a=3; expires=T2'']
     [\<lparr>name = ''b'', value = ''2'', expires = Millis 2000\<rparr>,
      \<lparr>name = ''a'', value = ''3'', expires = Millis 2000\<rparr>]
   = (None, [\<lparr>name = ''b'', value = ''2'', expires = Millis 2000\<rparr>,
             \<lparr>name = ''a'', value = ''3'', expires = Millis 2000\<rparr>])"
proof -
  let ?hs = "[''a=1; expires=T1'', ''b=2; expires=T2'', ''a=3; expires=T2'']"
  let ?cs = "[\<lparr>name = ''b'', value = ''0'', expires = NaN\<rparr>]"
  have a: "list_all (\<lambda>h. str_includes h ''expires='') ?hs" by code_simp
  have b: "merge example_dates ?hs ?cs =
      (None, [\<lparr>name = ''b'', value = ''2'', expires = Millis 2000\<rparr>,
              \<lparr>name = ''a'', value = ''3'', expires = Millis 2000\<rparr>])" by code_simp
  from merge_idempotent [OF a, of example_dates ?cs]
  have "merge example_dates ?hs (snd (merge example_dates ?hs ?cs))
      = merge example_dates ?hs ?cs" by blast
  with a b show ?thesis by simp
qed

section \<open>Properties of the requests and the login\<close>

lemma read_cookies_eq:
  "read_cookies env st =
     (fst (getCookies (now env (reads st)) (cookies st)),
      st\<lparr>cookies := snd (getCookies (now env (reads st)) (cookies st)),
         reads := Suc (reads st)\<rparr>)"
  by (simp add: read_cookies_def split: prod.splits)

lemma merge_parses:
  "list_all (\<lambda>h. str_includes h ''expires='') hs \<Longrightarrow> fst (merge dp hs cs) = None"
  by (induction hs arbitrary: cs)
     (auto split: sum.splits dest: parse_cookie_ok[where dp = dp])

lemma updateCookies_parses: "cookies_parse res \<Longrightarrow> fst (updateCookies dp res cs) = None"
  by (auto simp: cookies_parse_def updateCookies_def merge_parses split: option.splits)

lemma fetch_request_sent:
  "sent (snd (fetch_request env cfg path options st)) =
     sent st @ [outgoing env cfg path options st]"
  by (simp add: fetch_request_def read_cookies_eq outgoing_def Let_def
      split: option.splits prod.splits)

lemma fetch_request_answered:
  assumes "respond env (sent st) (outgoing env cfg path options st) = Some res"
    and "cookies_parse res"
  shows "fst (fetch_request env cfg path options st) = Inr res"
proof -
  from assms(2)
  have "fst (updateCookies (parse_date env) res
          (snd (getCookies (now env (reads st)) (cookies st)))) = None"
    by (rule updateCookies_parses)
  with assms(1) show ?thesis
    by (auto simp: fetch_request_def read_cookies_eq outgoing_def Let_def
        split: option.splits prod.splits)
qed

lemma url_outgoing [simp]: "url (outgoing env cfg path options st) = baseURL cfg @ path"
  by (simp add: outgoing_def)

lemma method_outgoing [simp]:
  "method_of (outgoing env cfg path options st) =
     (case method options of None \<Rightarrow> ''GET'' | Some m \<Rightarrow> m)"
  by (simp add: outgoing_def method_of_def)

lemma body_outgoing [simp]: "body (init (outgoing env cfg path options st)) = body options"
  by (simp add: outgoing_def)

text \<open>With the flag set, \<^verbatim>\<open>fetch\<close> is the sending of the request alone.\<close>

lemma fetch_skipLogin:
  "fetch env cfg path options True st = fetch_request env cfg path options st"
  by (simp add: fetch_def)

lemma login_token_none:
  "\<not> truthy (middlewaretokenName cfg) \<Longrightarrow> login_token env cfg st = (Inr [], st)"
  by (simp add: login_token_def)

lemma login_token_some:
  "truthy (middlewaretokenName cfg) \<Longrightarrow>
   fst (fetch_request env cfg (loginPath cfg) no_options st) = Inr res \<Longrightarrow>
   login_token env cfg st =
     (Inr (token_of (to_string (middlewaretokenName cfg)) (body_text res)),
      snd (fetch_request env cfg (loginPath cfg) no_options st))"
  by (cases "fetch_request env cfg (loginPath cfg) no_options st") (simp add: login_token_def)

lemma login_sent:
  "login_token env cfg st = (Inr tok, st1) \<Longrightarrow>
   sent (snd (login env cfg st)) =
     sent st1 @ [outgoing env cfg (loginPath cfg) (loginOptions cfg tok) st1]"
  using fetch_request_sent [of env cfg "loginPath cfg" "loginOptions cfg tok" st1]
  by (cases "fetch_request env cfg (loginPath cfg) (loginOptions cfg tok) st1")
     (auto simp: login_def split: sum.splits)

lemma login_done:
  "login_token env cfg st = (Inr tok, st1) \<Longrightarrow>
   fst (fetch_request env cfg (loginPath cfg) (loginOptions cfg tok) st1) = Inr res \<Longrightarrow>
   login env cfg st =
     (Inr (), snd (fetch_request env cfg (loginPath cfg) (loginOptions cfg tok) st1))"
  by (cases "fetch_request env cfg (loginPath cfg) (loginOptions cfg tok) st1")
     (auto simp: login_def split: sum.splits)

subsection \<open>The login decision\<close>

text \<open>
  C1 (evaluation of the code). The manager holds a \<^verbatim>\<open>sessionid\<close> cookie that expired
  at 1000 and the clock stands at 1500, so no cookie is active. The read that decides
  about the login returns \<^verbatim>\<open>sessionid=\<close>, which contains the name, so no login is
  run: the only request sent is the \<^verbatim>\<open>GET\<close> of the page, with an empty cookie header.
\<close>

theorem expired_session_not_renewed:
  "getCookies 1500 [\<lparr>name = ''sessionid'', value = ''s0'', expires = Millis 1000\<rparr>]
     = (''sessionid='', []) \<and>
   map (\<lambda>r. (method_of r, url r, headers (init r)))
     (sent (snd (fetch example_env example_cfg ''/protected'' no_options False
        (new_manager\<lparr>cookies :=
           [\<lparr>name = ''sessionid'', value = ''s0'', expires = Millis 1000\<rparr>]\<rparr>))))
   = [(''GET'', ''https://myapp.com/protected'', [(''cookie'', [])])]"
  by code_simp

subsection \<open>The login without a token name\<close>

text \<open>
  C3 (evaluation of the code). When no token name is configured, \<^verbatim>\<open>login\<close> sends one
  request, the \<^verbatim>\<open>POST\<close> to the login path, and no \<^verbatim>\<open>GET\<close>; the body of the \<^verbatim>\<open>POST\<close>
  starts with the field \<^verbatim>\<open>undefined=\<close>, the name \<^verbatim>\<open>undefined\<close> being what the template
  literal makes of the missing name.
\<close>

theorem login_without_token_name:
  "\<exists>r. sent (snd (login env (cfg\<lparr>middlewaretokenName := None\<rparr>) st)) = sent st @ [r] \<and>
       url r = baseURL cfg @ loginPath cfg \<and> method_of r = ''POST'' \<and>
       body (init r) =
         Some (''undefined=&username='' @ username cfg @ ''&password='' @ password cfg)"
proof -
  let ?cfg = "cfg\<lparr>middlewaretokenName := None\<rparr>"
  have "login_token env ?cfg st = (Inr [], st)" by (simp add: login_token_none)
  then have "sent (snd (login env ?cfg st)) =
      sent st @ [outgoing env ?cfg (loginPath ?cfg) (loginOptions ?cfg []) st]"
    by (rule login_sent)
  then show ?thesis by (simp add: loginOptions_def)
qed

subsection \<open>The token of the login page\<close>










subsection \<open>The first request of a new manager\<close>

lemma example_site_answers:
  "\<forall>h r. \<exists>res. respond (example_site page) h r = Some res \<and> cookies_parse res"
proof -
  have a: "str_includes ''sessionid=s1; expires=T2; Path=/'' ''expires=''" by code_simp
  have b: "str_includes ''csrftoken=xyz; expires=T2'' ''expires=''" by code_simp
  show ?thesis
    using a b by (simp add: example_site_def cookies_parse_def)
qed

text \<open>
  C8. With the session cookie name \<^verbatim>\<open>sessionid\<close> and the token name
  \<^verbatim>\<open>csrfmiddlewaretoken\<close>, and a site that answers every request with cookies that
  parse, the first \<^verbatim>\<open>fetch("/protected")\<close> of a new manager sends exactly three
  requests: a \<^verbatim>\<open>GET\<close> to the login path, a \<^verbatim>\<open>POST\<close> to the login path whose body is
  \<^verbatim>\<open>csrfmiddlewaretoken=<token>&username=<u>&password=<p>\<close> with the token taken from
  the body of the answer to the \<^verbatim>\<open>GET\<close>, and then the \<^verbatim>\<open>GET\<close> of \<^verbatim>\<open>/protected\<close>.
\<close>

theorem first_request_logs_in_once:
  assumes "sessionidCookieName cfg = ''sessionid''"
    and "middlewaretokenName cfg = Some ''csrfmiddlewaretoken''"
    and "\<forall>h r. \<exists>res. respond env h r = Some res \<and> cookies_parse res"
  shows "\<exists>res1 r1 r2 r3.
      sent (snd (fetch env cfg ''/protected'' no_options False new_manager)) = [r1, r2, r3] \<and>
      url r1 = baseURL cfg @ loginPath cfg \<and> method_of r1 = ''GET'' \<and>
      respond env [] r1 = Some res1 \<and>
      url r2 = baseURL cfg @ loginPath cfg \<and> method_of r2 = ''POST'' \<and>
      body (init r2) =
        Some (''csrfmiddlewaretoken='' @ token_of ''csrfmiddlewaretoken'' (body_text res1) @
              ''&username='' @ username cfg @ ''&password='' @ password cfg) \<and>
      url r3 = baseURL cfg @ ''/protected'' \<and> method_of r3 = ''GET''"
proof -
  let ?L = "loginPath cfg"
  let ?s1 = "new_manager\<lparr>cookies := [], reads := Suc 0\<rparr>"
  have rc: "read_cookies env new_manager = ([], ?s1)"
    by (simp add: read_cookies_eq new_manager_def getCookies_def)
  have s1: "sent ?s1 = []" by (simp add: new_manager_def)
  let ?r1 = "outgoing env cfg ?L no_options ?s1"
  from assms(3) obtain res1 where res1: "respond env (sent ?s1) ?r1 = Some res1" "cookies_parse res1"
    by blast
  then have f1: "fst (fetch_request env cfg ?L no_options ?s1) = Inr res1"
    by (rule fetch_request_answered)
  let ?s2 = "snd (fetch_request env cfg ?L no_options ?s1)"
  let ?tok = "token_of ''csrfmiddlewaretoken'' (body_text res1)"
  have t: "truthy (middlewaretokenName cfg)" using assms(2) by simp
  have lt: "login_token env cfg ?s1 = (Inr ?tok, ?s2)"
    using login_token_some [OF t f1] assms(2) by simp
  let ?r2 = "outgoing env cfg ?L (loginOptions cfg ?tok) ?s2"
  from assms(3) obtain res2 where res2: "respond env (sent ?s2) ?r2 = Some res2" "cookies_parse res2"
    by blast
  then have f2: "fst (fetch_request env cfg ?L (loginOptions cfg ?tok) ?s2) = Inr res2"
    by (rule fetch_request_answered)
  let ?s3 = "snd (fetch_request env cfg ?L (loginOptions cfg ?tok) ?s2)"
  have lg: "login env cfg ?s1 = (Inr (), ?s3)"
    using lt f2 by (rule login_done)
  have "fetch env cfg ''/protected'' no_options False new_manager
      = fetch_request env cfg ''/protected'' no_options ?s3"
    using rc lg assms(1) by (simp add: fetch_def)
  then have "sent (snd (fetch env cfg ''/protected'' no_options False new_manager))
      = [?r1, ?r2, outgoing env cfg ''/protected'' no_options ?s3]"
    by (simp add: fetch_request_sent s1)
  moreover have "body (loginOptions cfg ?tok) =
      Some (''csrfmiddlewaretoken='' @ ?tok @ ''&username='' @ username cfg @ ''&password='' @ password cfg)"
    using assms(2) by (simp add: loginOptions_def)
  moreover have "method (loginOptions cfg ?tok) = Some ''POST''"
    by (simp add: loginOptions_def)
  moreover have "respond env [] ?r1 = Some res1" using res1(1) s1 by simp
  ultimately show ?thesis by (simp add: no_options_def)
qed

theorem first_request_logs_in_once_witness:
  "sessionidCookieName example_cfg = ''sessionid'' \<and>
   middlewaretokenName example_cfg = Some ''csrfmiddlewaretoken'' \<and>
   (\<forall>h r. \<exists>res. respond example_env h r = Some res \<and> cookies_parse res) \<and>
   map (\<lambda>r. (method_of r, url r, body (init r)))
     (sent (snd (fetch example_env example_cfg ''/protected'' no_options False new_manager)))
   = [(''GET'', ''https://myapp.com/login/'', None),
      (''POST'', ''https://myapp.com/login/'',
         Some ''csrfmiddlewaretoken=abc123&username=u&password=p''),
      (''GET'', ''https://myapp.com/protected'', None)]"
proof -
  have a: "sessionidCookieName example_cfg = ''sessionid''" by (simp add: example_cfg_def)
  have b: "middlewaretokenName example_cfg = Some ''csrfmiddlewaretoken''"
    by (simp add: example_cfg_def)
  have c: "\<forall>h r. \<exists>res. respond example_env h r = Some res \<and> cookies_parse res"
    unfolding example_env_def by (rule example_site_answers)
  have d: "map (\<lambda>r. (method_of r, url r, body (init r)))
     (sent (snd (fetch example_env example_cfg ''/protected'' no_options False new_manager)))
   = [(''GET'', ''https://myapp.com/login/'', None),
      (''POST'', ''https://myapp.com/login/'',
         Some ''csrfmiddlewaretoken=abc123&username=u&password=p''),
      (''GET'', ''https://myapp.com/protected'', None)]"
    by code_simp
  from first_request_logs_in_once [OF a b c]
  have "\<exists>r1 r2 r3.
      sent (snd (fetch example_env example_cfg ''/protected'' no_options False new_manager))
        = [r1, r2, r3]" by blast
  with a b c d show ?thesis by simp
qed

end
